theory Spec2Isabelle
  imports Complex_Main "HOL-Library.Char_ord" "HOL-Library.List_Lexorder" "HOL-Library.AList"
begin

section \<open>Numbers\<close>

text \<open>
  The transformations compute on JavaScript numbers. The measured quantities (popularity,
  vote average, the averages and percentages derived from them) are modelled as exact
  rationals: the inputs come from JSON, so they are finite, and every division of the
  pipeline is guarded against a zero divisor, so no NaN or infinity arises. Binary
  rounding error is outside this model. Counts, identifiers, window sizes and list
  lengths are integers.
\<close>

text \<open>\<^verbatim>\<open>Math.round\<close>: the nearest integer, a tie going up.\<close>

definition Math_round :: "rat \<Rightarrow> rat" where
  "Math_round x = of_int \<lfloor>x + 1 / 2\<rfloor>"

text \<open>The idiom \<^verbatim>\<open>Math.round(v * 100) / 100\<close> that every stage writes inline.\<close>

definition round2 :: "rat \<Rightarrow> rat" where
  "round2 v = Math_round (v * 100) / 100"

section \<open>Data model\<close>

text \<open>
  The interfaces of \<^verbatim>\<open>types/tmdb.ts\<close> and \<^verbatim>\<open>types/dashboard.ts\<close>. A field named
  \<^verbatim>\<open>id\<close> or \<^verbatim>\<open>name\<close>, and a field name that a second interface repeats, carries a
  prefix. An optional field is an \<open>option\<close>; \<^verbatim>\<open>string | null\<close> is a \<open>string option\<close>.
  The field \<^verbatim>\<open>year\<close> holds the result of \<^verbatim>\<open>parseInt\<close>, where \<open>None\<close> is NaN.
\<close>

record Genre =
  g_id :: int
  g_name :: string

record Movie =
  m_id :: int
  title :: string
  original_title :: string
  overview :: string
  poster_path :: "string option"
  backdrop_path :: "string option"
  release_date :: string
  adult :: bool
  genre_ids :: "int list"
  original_language :: string
  popularity :: rat
  vote_average :: rat
  vote_count :: int
  video :: bool

record MonthlyData =
  month :: string
  year :: "int option"
  movies_count :: nat
  avg_popularity :: rat
  avg_vote_average :: rat
  total_vote_count :: int
  popularity_change_percent :: "rat option"
  vote_change_percent :: "rat option"
  popularity_moving_avg :: "rat option"
  vote_moving_avg :: "rat option"

record TopMovie =
  tm_id :: int
  tm_title :: string
  tm_popularity :: rat
  tm_vote_average :: rat
  tm_poster_path :: "string option"
  genre_names :: "string list"
  tm_release_date :: string

record GenreDistribution =
  genre_id :: int
  genre_name :: string
  gd_count :: nat
  percentage :: rat
  gd_avg_popularity :: rat
  gd_avg_vote_average :: rat

record DashboardFilters =
  startDate :: string
  endDate :: string
  filter_genres :: "int list"
  sortBy :: string
  minVoteCount :: int

record DateRange =
  range_start :: string
  range_end :: string

record DashboardData =
  monthly_data :: "MonthlyData list"
  top_movies :: "TopMovie list"
  genre_distribution :: "GenreDistribution list"
  total_movies :: nat
  date_range :: DateRange
  filters_applied :: DashboardFilters

section \<open>The runtime's library\<close>

text \<open>
  \<^verbatim>\<open>Date\<close> belongs to the JavaScript runtime: what \<^verbatim>\<open>Date.parse\<close> accepts beyond
  the ISO formats, and the local time zone that \<^verbatim>\<open>getFullYear\<close> and \<^verbatim>\<open>getMonth\<close>
  read, differ between runtimes. The aggregator takes it as a parameter \<open>dp\<close>:
  \<open>dp s = None\<close> when \<^verbatim>\<open>Date.parse(s)\<close> is NaN, and otherwise
  \<open>dp s = Some (y, m)\<close> with \<open>y\<close> the \<^verbatim>\<open>getFullYear()\<close> and \<open>m\<close> the
  \<^verbatim>\<open>getMonth()\<close> (0 to 11) of \<^verbatim>\<open>new Date(s)\<close>.
\<close>

type_synonym js_date = "string \<Rightarrow> (int \<times> nat) option"

text \<open>
  One instance, for the examples: the date-only ISO form \<^verbatim>\<open>YYYY-MM-DD\<close> as a runtime
  at UTC reads it. Everything else is rejected here, and the day is only checked to
  lie between 01 and 31; the examples use days in the middle of a month, which fall in
  that month in every time zone.
\<close>

definition is_digit :: "char \<Rightarrow> bool" where
  "is_digit c = (CHR ''0'' \<le> c \<and> c \<le> CHR ''9'')"

definition digit_value :: "char \<Rightarrow> nat" where
  "digit_value c = of_char c - 48"

definition digits_value :: "string \<Rightarrow> nat" where
  "digits_value ds = foldl (\<lambda>a c. 10 * a + digit_value c) 0 ds"

definition iso_date :: js_date where
  "iso_date s =
     (if length s = 10 \<and> s ! 4 = CHR ''-'' \<and> s ! 7 = CHR ''-''
         \<and> list_all is_digit (take 4 s) \<and> list_all is_digit (take 2 (drop 5 s))
         \<and> list_all is_digit (drop 8 s)
         \<and> 1 \<le> digits_value (take 2 (drop 5 s)) \<and> digits_value (take 2 (drop 5 s)) \<le> 12
         \<and> 1 \<le> digits_value (drop 8 s) \<and> digits_value (drop 8 s) \<le> 31
      then Some (int (digits_value (take 4 s)), digits_value (take 2 (drop 5 s)) - 1)
      else None)"

text \<open>\<^verbatim>\<open>Number.prototype.toString\<close> on an integer: its decimal digits, after a minus sign
  when it is negative.\<close>

fun digits_of :: "nat \<Rightarrow> string" where
  "digits_of n =
     (if n < 10 then [''0123456789'' ! n]
      else digits_of (n div 10) @ [''0123456789'' ! (n mod 10)])"

declare digits_of.simps [simp del]

definition Number_toString :: "int \<Rightarrow> string" where
  "Number_toString i =
     (if i < 0 then CHR ''-'' # digits_of (nat (- i)) else digits_of (nat i))"

definition padStart :: "nat \<Rightarrow> char \<Rightarrow> string \<Rightarrow> string" where
  "padStart n c s = replicate (n - length s) c @ s"

text \<open>
  \<^verbatim>\<open>parseInt\<close> on a piece of a month key split at \<^verbatim>\<open>-\<close>: the piece holds no sign and
  no white space, so the result is the value of its leading decimal digits, and NaN
  (\<open>None\<close>) when it has none.
\<close>

definition parseInt :: "string \<Rightarrow> int option" where
  "parseInt s =
     (let ds = takeWhile is_digit s
      in if ds = [] then None else Some (int (digits_value ds)))"

text \<open>
  \<^verbatim>\<open>Array.prototype.slice(start, end)\<close> with integer arguments: a negative argument
  counts from the end of the array, and both are clamped to the array.
\<close>

definition slice_index :: "nat \<Rightarrow> int \<Rightarrow> nat" where
  "slice_index len k = (if k < 0 then nat (int len + k) else min (nat k) len)"

definition Array_slice :: "'a list \<Rightarrow> int \<Rightarrow> int \<Rightarrow> 'a list" where
  "Array_slice xs start fin =
     (let from = slice_index (length xs) start; to = slice_index (length xs) fin
      in take (to - from) (drop from xs))"

text \<open>
  A \<^verbatim>\<open>Map\<close> is an association list in insertion order: \<^verbatim>\<open>get\<close> is \<^const>\<open>map_of\<close>,
  \<^verbatim>\<open>set\<close> is \<^const>\<open>AList.update\<close> (a new key goes last, an old key keeps its place),
  and \<^verbatim>\<open>forEach\<close> walks the list. \<^verbatim>\<open>Array.prototype.sort\<close> is stable, so sorting
  with a comparator that compares one key is \<^const>\<open>sort_key\<close> on that key. Strings
  are compared code unit by code unit, a proper prefix first; on month keys, which
  hold digits and \<^verbatim>\<open>-\<close> only, \<^verbatim>\<open>localeCompare\<close> is taken to agree with that order.
\<close>

section \<open>Stage 1: monthly aggregation\<close>

definition dateValid :: "js_date \<Rightarrow> Movie \<Rightarrow> bool" where
  "dateValid dp movie =
     (release_date movie \<noteq> [] \<and> 10 \<le> length (release_date movie)
      \<and> dp (release_date movie) \<noteq> None)"

definition monthKeyOf :: "js_date \<Rightarrow> Movie \<Rightarrow> string" where
  "monthKeyOf dp movie =
     (case dp (release_date movie) of
        None \<Rightarrow> ''NaN-NaN''
      | Some (y, mo) \<Rightarrow>
          Number_toString y @ ''-'' @ padStart 2 (CHR ''0'') (Number_toString (int mo + 1)))"

text \<open>The body of the grouping \<^verbatim>\<open>forEach\<close>. After the \<^verbatim>\<open>has\<close>/\<^verbatim>\<open>set\<close> the key is
  present, so the lookup before \<^verbatim>\<open>push\<close> never misses.\<close>

definition groupMovie ::
    "js_date \<Rightarrow> (string \<times> Movie list) list \<Rightarrow> Movie \<Rightarrow> (string \<times> Movie list) list" where
  "groupMovie dp moviesByMonth movie =
     (let monthKey = monthKeyOf dp movie;
          m1 = (if map_of moviesByMonth monthKey = None
                then AList.update monthKey [] moviesByMonth else moviesByMonth)
      in case map_of m1 monthKey of
           Some moviesInMonth \<Rightarrow> AList.update monthKey (moviesInMonth @ [movie]) m1
         | None \<Rightarrow> m1)"

definition monthlyRecord :: "string \<times> Movie list \<Rightarrow> MonthlyData" where
  "monthlyRecord e =
     (case e of (monthKey, moviesInMonth) \<Rightarrow>
        let yearStr = takeWhile (\<lambda>c. c \<noteq> CHR ''-'') monthKey;
            year = parseInt yearStr;
            totalMovies = length moviesInMonth;
            totalPopularity = foldl (\<lambda>sum movie. sum + popularity movie) 0 moviesInMonth;
            totalVoteAverage = foldl (\<lambda>sum movie. sum + vote_average movie) 0 moviesInMonth;
            totalVoteCount = foldl (\<lambda>sum movie. sum + vote_count movie) 0 moviesInMonth
        in \<lparr> month = monthKey,
             year = year,
             movies_count = totalMovies,
             avg_popularity = Math_round ((totalPopularity / of_nat totalMovies) * 100) / 100,
             avg_vote_average = Math_round ((totalVoteAverage / of_nat totalMovies) * 100) / 100,
             total_vote_count = totalVoteCount,
             popularity_change_percent = None,
             vote_change_percent = None,
             popularity_moving_avg = None,
             vote_moving_avg = None \<rparr>)"

definition aggregateByMonth :: "js_date \<Rightarrow> Movie list \<Rightarrow> Genre list \<Rightarrow> MonthlyData list" where
  "aggregateByMonth dp movies genres =
     (let validMovies = filter (dateValid dp) movies;
          moviesByMonth = foldl (groupMovie dp) [] validMovies;
          monthlyData = map monthlyRecord moviesByMonth
      in sort_key month monthlyData)"

section \<open>Stage 2: change between two values\<close>

definition calculatePercentChange :: "rat \<Rightarrow> rat \<Rightarrow> rat" where
  "calculatePercentChange previousValue currentValue =
     (if previousValue = 0 then (if currentValue = 0 then 0 else 100)
      else (let percentChange = ((currentValue - previousValue) / previousValue) * 100
            in Math_round (percentChange * 100) / 100))"

section \<open>The store of monthly records\<close>

text \<open>
  Stages 2 and 3 copy the array they are given and then assign to fields of the
  records in it, and a copied array holds the same record objects as the original. So
  the records live in a store: \<open>objs\<close> holds the record objects and \<open>arrs\<close> the arrays,
  an array being the list of the addresses of its elements. An address is an index into
  the store, and allocation appends.
\<close>

record heap =
  objs :: "MonthlyData list"
  arrs :: "nat list list"

definition new_array :: "nat list \<Rightarrow> heap \<Rightarrow> nat \<times> heap" where
  "new_array refs h = (length (arrs h), h\<lparr>arrs := arrs h @ [refs]\<rparr>)"

definition new_records :: "MonthlyData list \<Rightarrow> heap \<Rightarrow> nat \<times> heap" where
  "new_records records h =
     new_array [length (objs h) ..< length (objs h) + length records]
       (h\<lparr>objs := objs h @ records\<rparr>)"

text \<open>The records an array holds, read through the store.\<close>

definition records_of :: "heap \<Rightarrow> nat \<Rightarrow> MonthlyData list" where
  "records_of h a = map (\<lambda>r. objs h ! r) (arrs h ! a)"

text \<open>A store in which array \<open>a\<close> exists and holds addresses of records of the store.\<close>

definition valid_array :: "heap \<Rightarrow> nat \<Rightarrow> bool" where
  "valid_array h a = (a < length (arrs h) \<and> list_all (\<lambda>r. r < length (objs h)) (arrs h ! a))"

section \<open>Stage 1, continued: the date-range filter\<close>

definition filterByDateRange :: "nat \<Rightarrow> string \<Rightarrow> string \<Rightarrow> heap \<Rightarrow> nat \<times> heap" where
  "filterByDateRange monthlyData startDate' endDate' h =
     (let start = take 7 startDate';
          end' = take 7 endDate'
      in new_array
           (filter (\<lambda>data. start \<le> month (objs h ! data) \<and> month (objs h ! data) \<le> end')
              (arrs h ! monthlyData)) h)"

section \<open>Stage 2: percent change along the series\<close>

text \<open>The body of the loop, at index \<open>i\<close> of the copied array \<open>d\<close>.\<close>

definition changeStep :: "nat \<Rightarrow> nat \<Rightarrow> heap \<Rightarrow> heap" where
  "changeStep d i h =
     (let current = arrs h ! d ! i;
          previous = arrs h ! d ! (i - 1);
          h1 = h\<lparr>objs := (objs h)[current := (objs h ! current)
                 \<lparr>popularity_change_percent :=
                    Some (calculatePercentChange (avg_popularity (objs h ! previous))
                            (avg_popularity (objs h ! current)))\<rparr>]\<rparr>
      in h1\<lparr>objs := (objs h1)[current := (objs h1 ! current)
                 \<lparr>vote_change_percent :=
                    Some (calculatePercentChange (avg_vote_average (objs h1 ! previous))
                            (avg_vote_average (objs h1 ! current)))\<rparr>]\<rparr>)"

definition calculatePercentageChange :: "nat \<Rightarrow> heap \<Rightarrow> nat \<times> heap" where
  "calculatePercentageChange monthlyData h =
     (if length (arrs h ! monthlyData) < 2 then (monthlyData, h)
      else (case new_array (arrs h ! monthlyData) h of
              (dataWithChanges, h1) \<Rightarrow>
                (dataWithChanges,
                 fold (changeStep dataWithChanges)
                   [1 ..< length (arrs h1 ! dataWithChanges)] h1)))"

section \<open>Stage 3: rolling average\<close>

definition rollStep :: "nat \<Rightarrow> int \<Rightarrow> nat \<Rightarrow> heap \<Rightarrow> heap" where
  "rollStep d windowSize i h =
     (let window = Array_slice (arrs h ! d) (int i - windowSize + 1) (int i + 1);
          popularitySum = foldl (\<lambda>sum data. sum + avg_popularity (objs h ! data)) 0 window;
          h1 = h\<lparr>objs := (objs h)[arrs h ! d ! i := (objs h ! (arrs h ! d ! i))
                 \<lparr>popularity_moving_avg :=
                    Some (Math_round ((popularitySum / of_int windowSize) * 100) / 100)\<rparr>]\<rparr>;
          voteSum = foldl (\<lambda>sum data. sum + avg_vote_average (objs h1 ! data)) 0 window
      in h1\<lparr>objs := (objs h1)[arrs h1 ! d ! i := (objs h1 ! (arrs h1 ! d ! i))
                 \<lparr>vote_moving_avg :=
                    Some (Math_round ((voteSum / of_int windowSize) * 100) / 100)\<rparr>]\<rparr>)"

definition calculateRollingAverage :: "nat \<Rightarrow> int \<Rightarrow> heap \<Rightarrow> nat \<times> heap" where
  "calculateRollingAverage monthlyData windowSize h =
     (if windowSize < 1 \<or> int (length (arrs h ! monthlyData)) < windowSize
      then (monthlyData, h)
      else (case new_array (arrs h ! monthlyData) h of
              (dataWithMovingAvg, h1) \<Rightarrow>
                (dataWithMovingAvg,
                 fold (rollStep dataWithMovingAvg windowSize)
                   [nat (windowSize - 1) ..< length (arrs h1 ! dataWithMovingAvg)] h1)))"

section \<open>Stages 2 and 3 on series values\<close>

text \<open>
  The same two loops on a list of record values instead of an array of addresses: what
  stages 2 and 3 compute when the elements of the array are distinct objects, as the
  records that stage 1 builds are. The store versions above are shown to agree with these.
\<close>

definition changeAt :: "nat \<Rightarrow> MonthlyData list \<Rightarrow> MonthlyData list" where
  "changeAt i xs =
     xs[i := (xs ! i)
          \<lparr>popularity_change_percent :=
             Some (calculatePercentChange (avg_popularity (xs ! (i - 1))) (avg_popularity (xs ! i))),
           vote_change_percent :=
             Some (calculatePercentChange (avg_vote_average (xs ! (i - 1)))
                     (avg_vote_average (xs ! i)))\<rparr>]"

definition withChanges :: "MonthlyData list \<Rightarrow> MonthlyData list" where
  "withChanges xs = (if length xs < 2 then xs else fold changeAt [1 ..< length xs] xs)"

definition rollAt :: "int \<Rightarrow> nat \<Rightarrow> MonthlyData list \<Rightarrow> MonthlyData list" where
  "rollAt windowSize i xs =
     (let window = Array_slice xs (int i - windowSize + 1) (int i + 1);
          popularitySum = foldl (\<lambda>sum data. sum + avg_popularity data) 0 window;
          voteSum = foldl (\<lambda>sum data. sum + avg_vote_average data) 0 window
      in xs[i := (xs ! i)
              \<lparr>popularity_moving_avg :=
                 Some (Math_round ((popularitySum / of_int windowSize) * 100) / 100),
               vote_moving_avg :=
                 Some (Math_round ((voteSum / of_int windowSize) * 100) / 100)\<rparr>])"

definition withMovingAvg :: "int \<Rightarrow> MonthlyData list \<Rightarrow> MonthlyData list" where
  "withMovingAvg windowSize xs =
     (if windowSize < 1 \<or> int (length xs) < windowSize then xs
      else fold (rollAt windowSize) [nat (windowSize - 1) ..< length xs] xs)"


section \<open>Stage 4: top movies\<close>

definition validTopMovie :: "Movie \<Rightarrow> bool" where
  "validTopMovie movie =
     (title movie \<noteq> []
      \<and> (case poster_path movie of None \<Rightarrow> False | Some p \<Rightarrow> p \<noteq> [])
      \<and> release_date movie \<noteq> []
      \<and> 0 < popularity movie
      \<and> 100 \<le> vote_count movie)"

definition enrichMovieWithGenres :: "Movie \<Rightarrow> Genre list \<Rightarrow> TopMovie" where
  "enrichMovieWithGenres movie genres =
     (let genreNames =
            map the (filter (\<lambda>name. name \<noteq> None)
              (map (\<lambda>genreId.
                      case find (\<lambda>g. g_id g = genreId) genres of
                        Some genre \<Rightarrow> Some (g_name genre)
                      | None \<Rightarrow> None)
                 (genre_ids movie)))
      in \<lparr> tm_id = m_id movie,
           tm_title = title movie,
           tm_popularity = Math_round (popularity movie * 100) / 100,
           tm_vote_average = Math_round (vote_average movie * 100) / 100,
           tm_poster_path = poster_path movie,
           genre_names = genreNames,
           tm_release_date = release_date movie \<rparr>)"

text \<open>A comparator \<^verbatim>\<open>(a, b) => key(b) - key(a)\<close> sorts by descending key, which is
  ascending order of the negated key.\<close>

definition sortMoviesByCriteria :: "TopMovie list \<Rightarrow> string \<Rightarrow> TopMovie list" where
  "sortMoviesByCriteria movies criteria =
     (if criteria = ''popularity'' then sort_key (\<lambda>a. - tm_popularity a) movies
      else if criteria = ''vote_average'' then sort_key (\<lambda>a. - tm_vote_average a) movies
      else if criteria = ''vote_count'' then sort_key (\<lambda>a. - tm_popularity a) movies
      else if criteria = ''combined''
        then sort_key (\<lambda>a. - ((tm_popularity a / 100) + (tm_vote_average a * 10))) movies
      else sort_key (\<lambda>a. - tm_popularity a) movies)"

definition getTopMovies :: "Movie list \<Rightarrow> Genre list \<Rightarrow> string \<Rightarrow> int \<Rightarrow> TopMovie list" where
  "getTopMovies movies genres criteria topN =
     (let validMovies = filter validTopMovie movies;
          enrichedMovies = map (\<lambda>movie. enrichMovieWithGenres movie genres) validMovies;
          sortedMovies = sortMoviesByCriteria enrichedMovies criteria
      in Array_slice sortedMovies 0 topN)"

section \<open>Stage 5: genre distribution\<close>

record GenreStats =
  count :: nat
  totalPopularity :: rat
  totalVoteAverage :: rat
  totalVoteCount :: int

text \<open>The body of the inner \<^verbatim>\<open>forEach\<close>: one genre id of one movie.\<close>

definition countGenre ::
    "Movie \<Rightarrow> (int \<times> GenreStats) list \<Rightarrow> int \<Rightarrow> (int \<times> GenreStats) list" where
  "countGenre movie genreStats genreId =
     (case map_of genreStats genreId of
        Some stats \<Rightarrow>
          AList.update genreId
            (stats\<lparr> count := count stats + 1,
                    totalPopularity := totalPopularity stats + popularity movie,
                    totalVoteAverage := totalVoteAverage stats + vote_average movie,
                    totalVoteCount := totalVoteCount stats + vote_count movie \<rparr>)
            genreStats
      | None \<Rightarrow> genreStats)"

definition countMovie ::
    "(int \<times> GenreStats) list \<Rightarrow> Movie \<Rightarrow> (int \<times> GenreStats) list" where
  "countMovie genreStats movie =
     (if genre_ids movie = [] then genreStats
      else foldl (countGenre movie) genreStats (genre_ids movie))"

text \<open>The body of the last \<^verbatim>\<open>forEach\<close>: the record of one genre, if any movie
  carries it. An empty name, like a missing one, falls back to the label.\<close>

definition genreRecord ::
    "(int \<times> string) list \<Rightarrow> nat \<Rightarrow> int \<times> GenreStats \<Rightarrow> GenreDistribution list" where
  "genreRecord genreMap totalMovies e =
     (case e of (genreId, stats) \<Rightarrow>
        let genreName =
              (case map_of genreMap genreId of
                 Some n \<Rightarrow> if n \<noteq> [] then n
                           else ''G'' @ [char_of (233::nat)] @ ''nero '' @ Number_toString genreId
               | None \<Rightarrow> ''G'' @ [char_of (233::nat)] @ ''nero '' @ Number_toString genreId)
        in if 0 < count stats
           then [\<lparr> genre_id = genreId,
                   genre_name = genreName,
                   gd_count = count stats,
                   percentage =
                     Math_round ((of_nat (count stats) / of_nat totalMovies) * 10000) / 100,
                   gd_avg_popularity =
                     Math_round ((totalPopularity stats / of_nat (count stats)) * 100) / 100,
                   gd_avg_vote_average =
                     Math_round ((totalVoteAverage stats / of_nat (count stats)) * 100) / 100 \<rparr>]
           else [])"

definition analyzeGenreDistribution :: "Movie list \<Rightarrow> Genre list \<Rightarrow> GenreDistribution list" where
  "analyzeGenreDistribution movies genres =
     (let genreMap = foldl (\<lambda>m genre. AList.update (g_id genre) (g_name genre) m) [] genres;
          genreStats0 =
            foldl (\<lambda>m genre. AList.update (g_id genre)
                     \<lparr> count = 0, totalPopularity = 0, totalVoteAverage = 0,
                       totalVoteCount = 0 \<rparr> m) [] genres;
          genreStats = foldl countMovie genreStats0 movies;
          totalMovies = length movies;
          distribution = concat (map (genreRecord genreMap totalMovies) genreStats)
      in sort_key (\<lambda>a. - int (gd_count a)) distribution)"

text \<open>How many times the movies list genre \<open>g\<close>: the number of movies that carry
  it, when no movie lists a genre twice.\<close>

definition genreCount :: "Movie list \<Rightarrow> int \<Rightarrow> nat" where
  "genreCount movies g = sum_list (map (\<lambda>movie. count_list (genre_ids movie) g) movies)"

section \<open>The orchestrator\<close>

text \<open>
  \<open>today\<close> is what \<^verbatim>\<open>new Date().toISOString().split('T')[0]\<close> yields when the call
  reads the clock. The default \<^verbatim>\<open>sort()\<close> of an array of strings is the code-unit
  order.
\<close>

definition getEarliestDate :: "string \<Rightarrow> Movie list \<Rightarrow> string" where
  "getEarliestDate today movies =
     (let validDates = sort (map release_date (filter (\<lambda>movie. release_date movie \<noteq> []) movies))
      in if 0 < length validDates then validDates ! 0 else today)"

definition getLatestDate :: "string \<Rightarrow> Movie list \<Rightarrow> string" where
  "getLatestDate today movies =
     (let validDates =
            rev (sort (map release_date (filter (\<lambda>movie. release_date movie \<noteq> []) movies)))
      in if 0 < length validDates then validDates ! 0 else today)"

text \<open>
  The monthly series, as the orchestrator builds it in a store of its own: stage 1, the
  date-range filter when both bounds are non-empty, stage 2, stage 3 with window 3.
\<close>

definition monthlySeries :: "js_date \<Rightarrow> Movie list \<Rightarrow> Genre list \<Rightarrow> DashboardFilters \<Rightarrow> nat \<times> heap" where
  "monthlySeries dp movies genres filters =
     (case new_records (aggregateByMonth dp movies genres) \<lparr>objs = [], arrs = []\<rparr> of
        (monthlyData0, h0) \<Rightarrow>
     (case (if startDate filters \<noteq> [] \<and> endDate filters \<noteq> []
            then filterByDateRange monthlyData0 (startDate filters) (endDate filters) h0
            else (monthlyData0, h0)) of
        (monthlyData1, h1) \<Rightarrow>
     (case calculatePercentageChange monthlyData1 h1 of
        (monthlyData2, h2) \<Rightarrow>
     calculateRollingAverage monthlyData2 3 h2)))"

text \<open>
  No stage raises on inputs of the declared types, so the \<^verbatim>\<open>catch\<close> branch is never
  taken and the function returns the aggregate. The log lines and the timer do not
  reach the result.
\<close>

definition transformDashboardData ::
    "js_date \<Rightarrow> string \<Rightarrow> Movie list \<Rightarrow> Genre list \<Rightarrow> DashboardFilters \<Rightarrow> DashboardData" where
  "transformDashboardData dp today movies genres filters =
     (case monthlySeries dp movies genres filters of
        (monthlyData, h) \<Rightarrow>
          let topMovies = getTopMovies movies genres ''popularity'' 10;
              genreDistribution = analyzeGenreDistribution movies genres;
              totalMovies = length movies;
              dateRange =
                \<lparr> range_start =
                    (if startDate filters \<noteq> [] then startDate filters
                     else getEarliestDate today movies),
                  range_end =
                    (if endDate filters \<noteq> [] then endDate filters
                     else getLatestDate today movies) \<rparr>
          in \<lparr> monthly_data = records_of h monthlyData,
               top_movies = topMovies,
               genre_distribution = genreDistribution,
               total_movies = totalMovies,
               date_range = dateRange,
               filters_applied = filters \<rparr>)"

section \<open>Example data\<close>

text \<open>A movie with every field filled, for the concrete instances below.\<close>

definition example_movie :: "int \<Rightarrow> string \<Rightarrow> rat \<Rightarrow> rat \<Rightarrow> int \<Rightarrow> int list \<Rightarrow> Movie" where
  "example_movie i d p v c gs =
     \<lparr> m_id = i, title = ''Film'', original_title = ''Film'', overview = [],
       poster_path = Some ''/poster.jpg'', backdrop_path = None, release_date = d,
       adult = False, genre_ids = gs, original_language = ''en'', popularity = p,
       vote_average = v, vote_count = c, video = False \<rparr>"

text \<open>Three monthly records in a store, and the array of their addresses.\<close>

definition example_record :: "string \<Rightarrow> rat \<Rightarrow> rat \<Rightarrow> MonthlyData" where
  "example_record k p v =
     \<lparr> month = k, year = Some 2023, movies_count = 1, avg_popularity = p,
       avg_vote_average = v, total_vote_count = 100, popularity_change_percent = None,
       vote_change_percent = None, popularity_moving_avg = None, vote_moving_avg = None \<rparr>"

definition example_store :: heap where
  "example_store =
     \<lparr> objs = [example_record ''2023-01'' 10 6, example_record ''2023-02'' 20 7,
               example_record ''2023-03'' 30 8],
       arrs = [[0, 1, 2]] \<rparr>"

text \<open>Filters with the given bounds.\<close>

definition example_filters :: "string \<Rightarrow> string \<Rightarrow> DashboardFilters" where
  "example_filters s e =
     \<lparr> startDate = s, endDate = e, filter_genres = [], sortBy = ''popularity.desc'',
       minVoteCount = 0 \<rparr>"

section \<open>Rounding to two decimals\<close>

lemma floor_rat_numeral [simp]:
  "\<lfloor>numeral a / numeral b :: rat\<rfloor> = numeral a div numeral b"
  using floor_divide_of_int_eq [of "numeral a" "numeral b", where ?'a = rat] by simp

lemma floor_rat_neg_numeral [simp]:
  "\<lfloor>- (numeral a / numeral b) :: rat\<rfloor> = - numeral a div numeral b"
  using floor_divide_of_int_eq [of "- numeral a" "numeral b", where ?'a = rat] by simp





section \<open>C1\<close>




section \<open>Stage 1: the groups and their keys\<close>

lemma month_monthlyRecord: "month (monthlyRecord e) = fst e"
  by (cases e) (simp add: monthlyRecord_def Let_def)

lemma groupMovie_map_of:
  "map_of (groupMovie dp al m) k =
     (if k = monthKeyOf dp m
      then Some ((case map_of al k of None \<Rightarrow> [] | Some old \<Rightarrow> old) @ [m])
      else map_of al k)"
  by (simp add: groupMovie_def Let_def update_conv' split: option.splits)

lemma groupMovie_keys:
  "fst ` set (groupMovie dp al m) = insert (monthKeyOf dp m) (fst ` set al)"
  by (auto simp add: groupMovie_def Let_def dom_update update_conv' split: option.splits)

lemma groupMovie_distinct:
  "distinct (map fst al) \<Longrightarrow> distinct (map fst (groupMovie dp al m))"
  by (simp add: groupMovie_def Let_def distinct_update split: option.splits)

lemma group_fold_keys:
  "fst ` set (foldl (groupMovie dp) al ms) = fst ` set al \<union> monthKeyOf dp ` set ms"
  by (induction ms arbitrary: al) (auto simp add: groupMovie_keys)

lemma group_fold_distinct:
  "distinct (map fst al) \<Longrightarrow> distinct (map fst (foldl (groupMovie dp) al ms))"
  by (induction ms arbitrary: al) (simp_all add: groupMovie_distinct)

lemma group_fold_map_of:
  "map_of (foldl (groupMovie dp) al ms) k =
     (if filter (\<lambda>x. monthKeyOf dp x = k) ms = [] then map_of al k
      else Some ((case map_of al k of None \<Rightarrow> [] | Some old \<Rightarrow> old)
                 @ filter (\<lambda>x. monthKeyOf dp x = k) ms))"
proof (induction ms arbitrary: al)
  case Nil
  then show ?case by simp
next
  case (Cons m ms)
  show ?case
    by (simp add: Cons.IH groupMovie_map_of)
qed

lemma group_fold_set:
  "set (foldl (groupMovie dp) [] ms) =
     (\<lambda>k. (k, filter (\<lambda>x. monthKeyOf dp x = k) ms)) ` (monthKeyOf dp ` set ms)"
proof -
  let ?al = "foldl (groupMovie dp) [] ms"
  have d: "distinct (map fst ?al)" by (simp add: group_fold_distinct)
  have "\<And>k v. ((k, v) \<in> set ?al) = (map_of ?al k = Some v)"
    using d by simp
  then have "\<And>k v. ((k, v) \<in> set ?al) =
      (filter (\<lambda>x. monthKeyOf dp x = k) ms \<noteq> [] \<and> v = filter (\<lambda>x. monthKeyOf dp x = k) ms)"
    by (auto simp add: group_fold_map_of)
  moreover have "\<And>k. (filter (\<lambda>x. monthKeyOf dp x = k) ms \<noteq> []) = (k \<in> monthKeyOf dp ` set ms)"
    by (auto simp add: filter_empty_conv)
  ultimately show ?thesis by auto
qed


lemma aggregateByMonth_set:
  "set (aggregateByMonth dp movies genres) =
     (\<lambda>k. monthlyRecord (k, filter (\<lambda>x. monthKeyOf dp x = k) (filter (dateValid dp) movies)))
       ` (monthKeyOf dp ` set (filter (dateValid dp) movies))"
  by (simp add: aggregateByMonth_def Let_def group_fold_set image_image del: set_filter)

lemma aggregateByMonth_month_set:
  "set (map month (aggregateByMonth dp movies genres))
     = monthKeyOf dp ` set (filter (dateValid dp) movies)"
  by (simp add: aggregateByMonth_set image_image month_monthlyRecord del: set_filter)

lemma month_o_monthlyRecord: "month \<circ> monthlyRecord = fst"
  by (rule ext) (simp add: month_monthlyRecord)

lemma distinct_map_insort_key:
  "distinct (map f (insort_key f x xs)) = (f x \<notin> f ` set xs \<and> distinct (map f xs))"
  by (induction xs) (auto simp add: set_insort_key)

lemma distinct_map_sort_key:
  "distinct (map f (sort_key f xs)) = distinct (map f xs)"
  by (induction xs) (simp_all add: distinct_map_insort_key)

lemma aggregateByMonth_distinct:
  "distinct (map month (aggregateByMonth dp movies genres))"
  unfolding aggregateByMonth_def Let_def
  by (simp add: distinct_map_sort_key month_o_monthlyRecord group_fold_distinct)

lemma aggregateByMonth_sorted:
  "sorted (map month (aggregateByMonth dp movies genres))"
  by (simp add: aggregateByMonth_def Let_def sorted_sort_key)




section \<open>C5\<close>

lemma example_months:
  "map month (aggregateByMonth iso_date
       [example_movie 1 ''2023-03-15'' 40 7 200 [], example_movie 2 ''2023-01-15'' 10 6 300 [],
        example_movie 3 ''2023-03-09'' 20 8 100 [], example_movie 4 [] 5 5 100 []] [])
     = [''2023-01'', ''2023-03'']"
  by code_simp

text \<open>
  C5. For every movie and genre sequence, the sequence returned by aggregateByMonth is
  strictly increasing by month key (hence has no duplicate keys), with exactly one
  MonthlyRecord per distinct month among the movies that survive the date filter; for
  empty input it returns an empty sequence.
\<close>

theorem aggregateByMonth_strictly_increasing:
  "sorted_wrt (<) (map month (aggregateByMonth dp movies genres))
   \<and> distinct (map month (aggregateByMonth dp movies genres))
   \<and> set (map month (aggregateByMonth dp movies genres))
       = monthKeyOf dp ` set (filter (dateValid dp) movies)
   \<and> aggregateByMonth dp [] genres = []"
proof -
  have "aggregateByMonth dp [] genres = []"
    by (simp add: aggregateByMonth_def)
  then show ?thesis
    using aggregateByMonth_sorted [of dp movies genres]
      aggregateByMonth_distinct [of dp movies genres]
      aggregateByMonth_month_set [of dp movies genres]
    by (simp only: strict_sorted_iff simp_thms)
qed

theorem aggregateByMonth_strictly_increasing_witness:
  "sorted_wrt (<) (map month (aggregateByMonth iso_date
       [example_movie 1 ''2023-03-15'' 40 7 200 [], example_movie 2 ''2023-01-15'' 10 6 300 [],
        example_movie 3 ''2023-03-09'' 20 8 100 [], example_movie 4 [] 5 5 100 []] []))
   \<and> map month (aggregateByMonth iso_date
       [example_movie 1 ''2023-03-15'' 40 7 200 [], example_movie 2 ''2023-01-15'' 10 6 300 [],
        example_movie 3 ''2023-03-09'' 20 8 100 [], example_movie 4 [] 5 5 100 []] [])
     = [''2023-01'', ''2023-03'']"
  using aggregateByMonth_strictly_increasing [of iso_date
       "[example_movie 1 ''2023-03-15'' 40 7 200 [], example_movie 2 ''2023-01-15'' 10 6 300 [],
        example_movie 3 ''2023-03-09'' 20 8 100 [], example_movie 4 [] 5 5 100 []]" "[]"]
    example_months
  by blast

section \<open>C9\<close>







section \<open>Stage 4: what the ranker returns\<close>






section \<open>C3\<close>





section \<open>Stage 5: the counters\<close>

lemma fold_update_keys:
  "fst ` set (foldl (\<lambda>m x. AList.update (k x) (v x) m) al xs) = fst ` set al \<union> k ` set xs"
  by (induction xs arbitrary: al) (auto simp add: dom_update)

lemma fold_update_distinct:
  "distinct (map fst al) \<Longrightarrow>
     distinct (map fst (foldl (\<lambda>m x. AList.update (k x) (v x) m) al xs))"
  by (induction xs arbitrary: al) (simp_all add: distinct_update)

lemma fold_update_const:
  "map_of (foldl (\<lambda>m x. AList.update (k x) c m) al xs) g
     = (if g \<in> k ` set xs then Some c else map_of al g)"
  by (induction xs arbitrary: al) (auto simp add: update_conv')

lemma countGenre_keys: "map fst (countGenre movie st g) = map fst st"
proof (cases "map_of st g")
  case None
  then show ?thesis by (simp add: countGenre_def)
next
  case (Some s)
  then have "g \<in> set (map fst st)"
    by (metis map_of_eq_None_iff option.distinct(1) set_map)
  with Some show ?thesis by (simp add: countGenre_def update_keys)
qed

lemma countGenre_count:
  "map_option count (map_of (countGenre movie st g) g')
     = map_option (\<lambda>c. c + (if g = g' then 1 else 0)) (map_option count (map_of st g'))"
  by (cases "map_of st g") (auto simp add: countGenre_def update_conv' option.map_ident)

lemma countGenre_fold_keys: "map fst (foldl (countGenre movie) st ids) = map fst st"
  by (induction ids arbitrary: st) (simp_all add: countGenre_keys)

lemma countGenre_fold_count:
  "map_option count (map_of (foldl (countGenre movie) st ids) g')
     = map_option (\<lambda>c. c + count_list ids g') (map_option count (map_of st g'))"
proof (induction ids arbitrary: st)
  case Nil
  then show ?case by (simp add: option.map_ident)
next
  case (Cons g ids)
  show ?case
    by (simp add: Cons.IH countGenre_count option.map_comp comp_def add.commute add.left_commute)
qed

lemma countMovie_keys: "map fst (countMovie st movie) = map fst st"
  by (simp add: countMovie_def countGenre_fold_keys)

lemma countMovie_count:
  "map_option count (map_of (countMovie st movie) g')
     = map_option (\<lambda>c. c + count_list (genre_ids movie) g') (map_option count (map_of st g'))"
  by (simp add: countMovie_def countGenre_fold_count option.map_ident)

lemma countMovie_fold_keys: "map fst (foldl countMovie st movies) = map fst st"
  by (induction movies arbitrary: st) (simp_all add: countMovie_keys)

lemma countMovie_fold_count:
  "map_option count (map_of (foldl countMovie st movies) g')
     = map_option (\<lambda>c. c + genreCount movies g') (map_option count (map_of st g'))"
proof (induction movies arbitrary: st)
  case Nil
  then show ?case by (simp add: genreCount_def option.map_ident)
next
  case (Cons m movies)
  show ?case
    by (simp add: Cons.IH countMovie_count option.map_comp comp_def genreCount_def add.assoc)
qed

lemma genreCount_pos:
  "(0 < genreCount movies g) = (\<exists>movie \<in> set movies. g \<in> set (genre_ids movie))"
  by (induction movies) (auto simp add: genreCount_def count_list_0_iff)


lemma genreRecord_fields:
  "r \<in> set (genreRecord gm n e) \<Longrightarrow>
     genre_id r = fst e \<and> gd_count r = count (snd e) \<and> 0 < count (snd e)
     \<and> percentage r = round2 (of_nat (count (snd e)) / of_nat n * 100)"
  by (cases e) (auto simp add: genreRecord_def round2_def Let_def mult.commute split: if_splits)

lemma genreRecord_ids:
  "map genre_id (concat (map (genreRecord gm n) st))
     = map fst (filter (\<lambda>e. 0 < count (snd e)) st)"
  by (induction st) (auto simp add: genreRecord_def Let_def)

lemma genreStats_final:
  fixes movies genres
  defines "st \<equiv> foldl countMovie
             (foldl (\<lambda>m genre. AList.update (g_id genre)
                       \<lparr> count = 0, totalPopularity = 0, totalVoteAverage = 0,
                         totalVoteCount = 0 \<rparr> m) [] genres) movies"
  shows "distinct (map fst st)"
    and "fst ` set st = g_id ` set genres"
    and "e \<in> set st \<Longrightarrow> count (snd e) = genreCount movies (fst e)"
proof -
  let ?st0 = "foldl (\<lambda>m genre. AList.update (g_id genre)
                       \<lparr> count = 0, totalPopularity = 0, totalVoteAverage = 0,
                         totalVoteCount = 0 \<rparr> m) [] genres"
  have keys: "map fst st = map fst ?st0"
    unfolding st_def by (rule countMovie_fold_keys)
  have d0: "distinct (map fst ?st0)"
    by (rule fold_update_distinct) simp
  show d: "distinct (map fst st)"
    using keys d0 by simp
  have "set (map fst st) = set (map fst ?st0)"
    using keys by simp
  then show "fst ` set st = g_id ` set genres"
    by (simp add: fold_update_keys)
  assume "e \<in> set st"
  then have e: "map_of st (fst e) = Some (snd e)"
    using d by simp
  then have "fst e \<in> fst ` set ?st0"
    using keys by (metis \<open>e \<in> set st\<close> image_eqI list.set_map)
  then have "fst e \<in> g_id ` set genres"
    by (simp add: fold_update_keys)
  then have "map_of ?st0 (fst e)
      = Some \<lparr> count = 0, totalPopularity = 0, totalVoteAverage = 0, totalVoteCount = 0 \<rparr>"
    by (simp add: fold_update_const)
  then have "map_option count (map_of st (fst e)) = Some (genreCount movies (fst e))"
    unfolding st_def by (simp add: countMovie_fold_count)
  with e show "count (snd e) = genreCount movies (fst e)"
    by simp
qed

lemma distinct_map_sort_key_other:
  "distinct (map g (sort_key f xs)) = distinct (map g xs)"
  by (simp add: distinct_map)

lemma analyzeGenreDistribution_records:
  "distinct (map genre_id (analyzeGenreDistribution movies genres))
   \<and> set (map genre_id (analyzeGenreDistribution movies genres))
       = {g \<in> g_id ` set genres. \<exists>movie \<in> set movies. g \<in> set (genre_ids movie)}
   \<and> (\<forall>r \<in> set (analyzeGenreDistribution movies genres).
         gd_count r = genreCount movies (genre_id r) \<and> 0 < gd_count r
         \<and> percentage r = round2 (of_nat (gd_count r) / of_nat (length movies) * 100))"
proof -
  let ?gm = "foldl (\<lambda>m genre. AList.update (g_id genre) (g_name genre) m) [] genres"
  let ?st = "foldl countMovie
             (foldl (\<lambda>m genre. AList.update (g_id genre)
                       \<lparr> count = 0, totalPopularity = 0, totalVoteAverage = 0,
                         totalVoteCount = 0 \<rparr> m) [] genres) movies"
  let ?D = "concat (map (genreRecord ?gm (length movies)) ?st)"
  have out: "analyzeGenreDistribution movies genres = sort_key (\<lambda>a. - int (gd_count a)) ?D"
    by (simp add: analyzeGenreDistribution_def Let_def)
  have d: "distinct (map fst ?st)" and k: "fst ` set ?st = g_id ` set genres"
    and c: "\<And>e. e \<in> set ?st \<Longrightarrow> count (snd e) = genreCount movies (fst e)"
    by (rule genreStats_final)+
  have ids: "map genre_id ?D = map fst (filter (\<lambda>e. 0 < count (snd e)) ?st)"
    by (rule genreRecord_ids)
  have p1: "distinct (map genre_id (analyzeGenreDistribution movies genres))"
    unfolding out distinct_map_sort_key_other ids
    using d by (rule distinct_map_filter)
  have "set (map genre_id ?D) = fst ` {e \<in> set ?st. 0 < genreCount movies (fst e)}"
    unfolding ids using c by auto
  also have "\<dots> = {g \<in> fst ` set ?st. 0 < genreCount movies g}"
    by auto
  finally have p2: "set (map genre_id (analyzeGenreDistribution movies genres))
       = {g \<in> g_id ` set genres. \<exists>movie \<in> set movies. g \<in> set (genre_ids movie)}"
    unfolding out k genreCount_pos by simp
  have p3: "\<forall>r \<in> set (analyzeGenreDistribution movies genres).
         gd_count r = genreCount movies (genre_id r) \<and> 0 < gd_count r
         \<and> percentage r = round2 (of_nat (gd_count r) / of_nat (length movies) * 100)"
  proof
    fix r assume "r \<in> set (analyzeGenreDistribution movies genres)"
    then have "r \<in> set ?D" unfolding out by simp
    then obtain e where e: "e \<in> set ?st" and r: "r \<in> set (genreRecord ?gm (length movies) e)"
      by auto
    from genreRecord_fields [OF r] c [OF e]
    show "gd_count r = genreCount movies (genre_id r) \<and> 0 < gd_count r
         \<and> percentage r = round2 (of_nat (gd_count r) / of_nat (length movies) * 100)"
      by simp
  qed
  show ?thesis using p1 p2 p3 by blast
qed




section \<open>C6\<close>




section \<open>Stages 2 and 3: the store against the series values\<close>

lemma map_nth_update_distinct:
  assumes "distinct refs" "i < length refs" "\<forall>r \<in> set refs. r < length os"
  shows "map (\<lambda>r. os[refs ! i := v] ! r) refs = (map (\<lambda>r. os ! r) refs)[i := v]"
proof (rule nth_equalityI)
  show "length (map (\<lambda>r. os[refs ! i := v] ! r) refs) = length ((map (\<lambda>r. os ! r) refs)[i := v])"
    by simp
next
  fix j assume "j < length (map (\<lambda>r. os[refs ! i := v] ! r) refs)"
  then have j: "j < length refs" by simp
  have "(refs ! j = refs ! i) = (j = i)"
    using assms(1,2) j by (simp add: nth_eq_iff_index_eq)
  moreover have "refs ! i < length os" using assms(2,3) by simp
  ultimately show "map (\<lambda>r. os[refs ! i := v] ! r) refs ! j = (map (\<lambda>r. os ! r) refs)[i := v] ! j"
    using j assms(2) by (auto simp add: nth_list_update)
qed

lemma changeStep_arrs: "arrs (changeStep d i h) = arrs h"
  by (simp add: changeStep_def Let_def)

lemma changeStep_length: "length (objs (changeStep d i h)) = length (objs h)"
  by (simp add: changeStep_def Let_def)

lemma changeStep_refines:
  assumes v: "valid_array h d" and dis: "distinct (arrs h ! d)"
    and i: "0 < i" "i < length (arrs h ! d)"
  shows "records_of (changeStep d i h) d = changeAt i (records_of h d)"
proof -
  let ?refs = "arrs h ! d"
  let ?os = "objs h"
  have inr: "\<forall>r \<in> set ?refs. r < length ?os"
    using v by (simp add: valid_array_def list_all_iff)
  have cur: "?refs ! i < length ?os" and prev: "?refs ! (i - 1) < length ?os"
    using inr i by simp_all
  have ne: "?refs ! (i - 1) \<noteq> ?refs ! i"
    using dis i by (simp add: nth_eq_iff_index_eq)
  have "objs (changeStep d i h) =
      ?os[?refs ! i := (?os ! (?refs ! i))
          \<lparr>popularity_change_percent :=
             Some (calculatePercentChange (avg_popularity (?os ! (?refs ! (i - 1))))
                     (avg_popularity (?os ! (?refs ! i)))),
           vote_change_percent :=
             Some (calculatePercentChange (avg_vote_average (?os ! (?refs ! (i - 1))))
                     (avg_vote_average (?os ! (?refs ! i))))\<rparr>]"
    using cur ne by (simp add: changeStep_def Let_def)
  then show ?thesis
    using i by (simp add: records_of_def changeStep_arrs changeAt_def
        map_nth_update_distinct [OF dis i(2) inr])
qed

lemma changeStep_valid:
  "valid_array h d \<Longrightarrow> valid_array (changeStep d i h) d"
  by (simp add: valid_array_def changeStep_arrs changeStep_length)

lemma changeStep_fold_refines:
  assumes "valid_array h d" "distinct (arrs h ! d)"
    and "\<forall>i \<in> set is. 0 < i \<and> i < length (arrs h ! d)"
  shows "records_of (fold (changeStep d) is h) d = fold changeAt is (records_of h d)
         \<and> arrs (fold (changeStep d) is h) = arrs h
         \<and> length (objs (fold (changeStep d) is h)) = length (objs h)"
  using assms
proof (induction "is" arbitrary: h)
  case Nil
  then show ?case by simp
next
  case (Cons i "is")
  have v': "valid_array (changeStep d i h) d"
    using Cons.prems(1) by (rule changeStep_valid)
  have a': "arrs (changeStep d i h) = arrs h" by (rule changeStep_arrs)
  have r: "records_of (changeStep d i h) d = changeAt i (records_of h d)"
    using Cons.prems by (intro changeStep_refines) simp_all
  show ?case
    using Cons.IH [OF v'] Cons.prems a' r by (simp add: changeStep_length)
qed


lemma Array_slice_map: "Array_slice (map f xs) a b = map f (Array_slice xs a b)"
  by (simp add: Array_slice_def Let_def take_map drop_map)

lemma rollStep_arrs: "arrs (rollStep d w i h) = arrs h"
  by (simp add: rollStep_def Let_def)

lemma rollStep_length: "length (objs (rollStep d w i h)) = length (objs h)"
  by (simp add: rollStep_def Let_def)

lemma rollStep_valid:
  "valid_array h d \<Longrightarrow> valid_array (rollStep d w i h) d"
  by (simp add: valid_array_def rollStep_arrs rollStep_length)

lemma rollStep_refines:
  assumes v: "valid_array h d" and dis: "distinct (arrs h ! d)"
    and i: "i < length (arrs h ! d)"
  shows "records_of (rollStep d w i h) d = rollAt w i (records_of h d)"
proof -
  let ?refs = "arrs h ! d"
  let ?os = "objs h"
  let ?win = "Array_slice ?refs (int i - w + 1) (int i + 1)"
  let ?P = "Math_round ((foldl (\<lambda>sum data. sum + avg_popularity (?os ! data)) 0 ?win / of_int w) * 100) / 100"
  let ?V = "Math_round ((foldl (\<lambda>sum data. sum + avg_vote_average (?os ! data)) 0 ?win / of_int w) * 100) / 100"
  have inr: "\<forall>r \<in> set ?refs. r < length ?os"
    using v by (simp add: valid_array_def list_all_iff)
  have cur: "?refs ! i < length ?os"
    using inr i by simp
  have same: "\<And>X. avg_vote_average X = avg_vote_average (?os ! (?refs ! i)) \<Longrightarrow>
      (\<lambda>sum data. sum + avg_vote_average (?os[?refs ! i := X] ! data))
        = (\<lambda>sum data. sum + avg_vote_average (?os ! data))"
    using cur by (intro ext) (simp add: nth_list_update)
  have "objs (rollStep d w i h) =
      ?os[?refs ! i := (?os ! (?refs ! i))
          \<lparr>popularity_moving_avg := Some ?P, vote_moving_avg := Some ?V\<rparr>]"
    using cur by (simp add: rollStep_def Let_def same)
  moreover have "rollAt w i (records_of h d) =
      (records_of h d)[i := (?os ! (?refs ! i))
          \<lparr>popularity_moving_avg := Some ?P, vote_moving_avg := Some ?V\<rparr>]"
    using i by (simp add: rollAt_def Let_def records_of_def Array_slice_map foldl_map)
  ultimately show ?thesis
    by (simp add: records_of_def rollStep_arrs map_nth_update_distinct [OF dis i inr])
qed

lemma rollStep_fold_refines:
  assumes "valid_array h d" "distinct (arrs h ! d)"
    and "\<forall>i \<in> set is. i < length (arrs h ! d)"
  shows "records_of (fold (rollStep d w) is h) d = fold (rollAt w) is (records_of h d)
         \<and> arrs (fold (rollStep d w) is h) = arrs h
         \<and> length (objs (fold (rollStep d w) is h)) = length (objs h)"
  using assms
proof (induction "is" arbitrary: h)
  case Nil
  then show ?case by simp
next
  case (Cons i "is")
  have v': "valid_array (rollStep d w i h) d"
    using Cons.prems(1) by (rule rollStep_valid)
  have a': "arrs (rollStep d w i h) = arrs h" by (rule rollStep_arrs)
  have r: "records_of (rollStep d w i h) d = rollAt w i (records_of h d)"
    using Cons.prems by (intro rollStep_refines) simp_all
  show ?case
    using Cons.IH [OF v'] Cons.prems a' r by (simp add: rollStep_length)
qed

lemma new_array_props:
  assumes "new_array refs h = (d, h')"
  shows "d = length (arrs h)" "arrs h' = arrs h @ [refs]" "objs h' = objs h"
    "arrs h' ! d = refs"
  using assms by (auto simp add: new_array_def)

lemma length_records_of: "length (records_of h a) = length (arrs h ! a)"
  by (simp add: records_of_def)

lemma calculatePercentageChange_refines:
  assumes v: "valid_array h a" and dis: "distinct (arrs h ! a)"
    and run: "calculatePercentageChange a h = (r, h')"
  shows "records_of h' r = withChanges (records_of h a)
         \<and> valid_array h' r \<and> arrs h' ! r = arrs h ! a"
proof (cases "length (arrs h ! a) < 2")
  case True
  with run have "r = a" "h' = h" by (simp_all add: calculatePercentageChange_def)
  with True v show ?thesis
    by (simp add: withChanges_def length_records_of)
next
  case False
  let ?refs = "arrs h ! a"
  obtain d h1 where na: "new_array ?refs h = (d, h1)" by (cases "new_array ?refs h")
  note p = new_array_props [OF na]
  have v1: "valid_array h1 d"
    using v p by (simp add: valid_array_def)
  have d1: "distinct (arrs h1 ! d)" using dis p by simp
  have r1: "records_of h1 d = records_of h a" using p by (simp add: records_of_def)
  have run': "r = d" "h' = fold (changeStep d) [1 ..< length (arrs h1 ! d)] h1"
    using run False na by (auto simp add: calculatePercentageChange_def)
  have rng: "\<forall>i \<in> set [1 ..< length (arrs h1 ! d)]. 0 < i \<and> i < length (arrs h1 ! d)"
    by simp
  note f = changeStep_fold_refines [OF v1 d1 rng]
  have "records_of h' r = withChanges (records_of h a)"
    using f False r1 p by (simp add: run' withChanges_def length_records_of)
  moreover have "arrs h' ! r = arrs h ! a"
    using f p by (simp add: run')
  moreover have "valid_array h' r"
    using f v1 by (simp add: run' valid_array_def)
  ultimately show ?thesis by simp
qed

lemma calculateRollingAverage_refines:
  assumes v: "valid_array h a" and dis: "distinct (arrs h ! a)"
    and run: "calculateRollingAverage a w h = (r, h')"
  shows "records_of h' r = withMovingAvg w (records_of h a)
         \<and> valid_array h' r \<and> arrs h' ! r = arrs h ! a"
proof (cases "w < 1 \<or> int (length (arrs h ! a)) < w")
  case True
  with run have "r = a" "h' = h" by (auto simp add: calculateRollingAverage_def)
  with True v show ?thesis
    by (auto simp add: withMovingAvg_def length_records_of)
next
  case False
  let ?refs = "arrs h ! a"
  obtain d h1 where na: "new_array ?refs h = (d, h1)" by (cases "new_array ?refs h")
  note p = new_array_props [OF na]
  have v1: "valid_array h1 d"
    using v p by (simp add: valid_array_def)
  have d1: "distinct (arrs h1 ! d)" using dis p by simp
  have r1: "records_of h1 d = records_of h a" using p by (simp add: records_of_def)
  have run': "r = d" "h' = fold (rollStep d w) [nat (w - 1) ..< length (arrs h1 ! d)] h1"
    using run False na by (auto simp add: calculateRollingAverage_def)
  have rng: "\<forall>i \<in> set [nat (w - 1) ..< length (arrs h1 ! d)]. i < length (arrs h1 ! d)"
    by simp
  note f = rollStep_fold_refines [OF v1 d1 rng, of w]
  have "records_of h' r = withMovingAvg w (records_of h a)"
    using f False r1 p by (simp add: run' withMovingAvg_def length_records_of)
  moreover have "arrs h' ! r = arrs h ! a"
    using f p by (simp add: run')
  moreover have "valid_array h' r"
    using f v1 by (simp add: run' valid_array_def)
  ultimately show ?thesis by simp
qed

section \<open>Stage 3: the loop in closed form\<close>









section \<open>C4\<close>








section \<open>C2\<close>

text \<open>
  C2. Calling calculatePercentageChange, and likewise calculateRollingAverage, should
  leave the input sequence and every record in it unchanged. The code copies the array
  only: the copy holds the same record objects, and the loop assigns to their fields.
  Read through the input array after the call, the second and third records of the
  example carry a percent change, and its third record a moving average, that they did
  not have before.
\<close>

theorem stages_mutate_input:
  "map popularity_change_percent (records_of example_store 0) = [None, None, None]
   \<and> map popularity_change_percent
       (records_of (snd (calculatePercentageChange 0 example_store)) 0)
       = [None, Some 100, Some 50]
   \<and> map popularity_moving_avg (records_of example_store 0) = [None, None, None]
   \<and> map popularity_moving_avg
       (records_of (snd (calculateRollingAverage 0 3 example_store)) 0)
       = [None, None, Some 20]"
  by code_simp

section \<open>The orchestrator: the monthly series as a value\<close>

lemma new_records_props:
  assumes "new_records xs h = (a, h')"
  shows "valid_array h' a \<and> distinct (arrs h' ! a) \<and> records_of h' a = xs"
proof -
  let ?n = "length (objs h)"
  have a: "a = length (arrs h)" and ar: "arrs h' = arrs h @ [[?n ..< ?n + length xs]]"
    and ob: "objs h' = objs h @ xs"
    using assms by (auto simp add: new_records_def new_array_def)
  have "map (\<lambda>r. (objs h @ xs) ! r) [?n ..< ?n + length xs] = xs"
    by (rule nth_equalityI) (simp_all add: nth_append)
  then show ?thesis
    by (simp add: a ar ob valid_array_def records_of_def list_all_iff)
qed

lemma filterByDateRange_props:
  assumes v: "valid_array h a" and dis: "distinct (arrs h ! a)"
    and run: "filterByDateRange a s e h = (r, h')"
  shows "valid_array h' r \<and> distinct (arrs h' ! r)
         \<and> records_of h' r
             = filter (\<lambda>d. take 7 s \<le> month d \<and> month d \<le> take 7 e) (records_of h a)"
proof -
  let ?P = "\<lambda>d. take 7 s \<le> month d \<and> month d \<le> take 7 e"
  let ?refs = "filter (\<lambda>data. ?P (objs h ! data)) (arrs h ! a)"
  have na: "new_array ?refs h = (r, h')"
    using run by (simp add: filterByDateRange_def Let_def)
  note p = new_array_props [OF na]
  have "valid_array h' r"
    using v p by (simp add: valid_array_def list_all_iff)
  moreover have "distinct (arrs h' ! r)"
    using dis p by simp
  moreover have "records_of h' r = filter ?P (records_of h a)"
    using p by (simp add: records_of_def filter_map comp_def)
  ultimately show ?thesis by simp
qed

lemma monthlySeries_value:
  assumes "monthlySeries dp movies genres filters = (r, h)"
  shows "records_of h r =
     withMovingAvg 3 (withChanges
       (if startDate filters \<noteq> [] \<and> endDate filters \<noteq> []
        then filter (\<lambda>d. take 7 (startDate filters) \<le> month d
                         \<and> month d \<le> take 7 (endDate filters))
               (aggregateByMonth dp movies genres)
        else aggregateByMonth dp movies genres))"
proof -
  obtain a0 h0 where s0: "new_records (aggregateByMonth dp movies genres) \<lparr>objs = [], arrs = []\<rparr> = (a0, h0)"
    by (cases "new_records (aggregateByMonth dp movies genres) \<lparr>objs = [], arrs = []\<rparr>")
  obtain a1 h1 where s1: "(if startDate filters \<noteq> [] \<and> endDate filters \<noteq> []
            then filterByDateRange a0 (startDate filters) (endDate filters) h0
            else (a0, h0)) = (a1, h1)"
    by (cases "(if startDate filters \<noteq> [] \<and> endDate filters \<noteq> []
            then filterByDateRange a0 (startDate filters) (endDate filters) h0
            else (a0, h0))")
  obtain a2 h2 where s2: "calculatePercentageChange a1 h1 = (a2, h2)"
    by (cases "calculatePercentageChange a1 h1")
  have s3: "calculateRollingAverage a2 3 h2 = (r, h)"
    using assms s0 s1 s2 by (simp add: monthlySeries_def)
  note p0 = new_records_props [OF s0]
  have p1: "valid_array h1 a1 \<and> distinct (arrs h1 ! a1)
      \<and> records_of h1 a1 =
          (if startDate filters \<noteq> [] \<and> endDate filters \<noteq> []
           then filter (\<lambda>d. take 7 (startDate filters) \<le> month d
                         \<and> month d \<le> take 7 (endDate filters))
               (aggregateByMonth dp movies genres)
           else aggregateByMonth dp movies genres)"
  proof (cases "startDate filters \<noteq> [] \<and> endDate filters \<noteq> []")
    case True
    then have "filterByDateRange a0 (startDate filters) (endDate filters) h0 = (a1, h1)"
      using s1 by simp
    from filterByDateRange_props [OF _ _ this] p0 True show ?thesis by simp
  next
    case False
    then have "a1 = a0" "h1 = h0" using s1 by auto
    with p0 False show ?thesis by auto
  qed
  have p2: "records_of h2 a2 = withChanges (records_of h1 a1)
         \<and> valid_array h2 a2 \<and> arrs h2 ! a2 = arrs h1 ! a1"
    using calculatePercentageChange_refines [OF _ _ s2] p1 by simp
  have p3: "records_of h r = withMovingAvg 3 (records_of h2 a2)"
    using calculateRollingAverage_refines [OF _ _ s3] p1 p2 by simp
  show ?thesis
    using p1 p2 p3 by simp
qed

lemma map_update_same: "f v = f (xs ! i) \<Longrightarrow> map f (xs[i := v]) = map f xs"
  by (cases "i < length xs") (simp_all add: map_update list_update_same_conv list_update_beyond)

lemma month_changeAt: "map month (changeAt i xs) = map month xs"
  by (simp add: changeAt_def map_update_same)

lemma month_rollAt: "map month (rollAt w i xs) = map month xs"
  by (simp add: rollAt_def Let_def map_update_same)

lemma month_withChanges: "map month (withChanges xs) = map month xs"
proof -
  have "\<And>is. map month (fold changeAt is xs) = map month xs"
    subgoal for "is" by (induction "is" arbitrary: xs) (simp_all add: month_changeAt)
    done
  then show ?thesis by (simp add: withChanges_def)
qed

lemma month_withMovingAvg: "map month (withMovingAvg w xs) = map month xs"
proof -
  have "\<And>is. map month (fold (rollAt w) is xs) = map month xs"
    subgoal for "is" by (induction "is" arbitrary: xs) (simp_all add: month_rollAt)
    done
  then show ?thesis by (simp add: withMovingAvg_def)
qed

lemma monthly_data_value:
  "monthly_data (transformDashboardData dp today movies genres filters) =
     withMovingAvg 3 (withChanges
       (if startDate filters \<noteq> [] \<and> endDate filters \<noteq> []
        then filter (\<lambda>d. take 7 (startDate filters) \<le> month d
                         \<and> month d \<le> take 7 (endDate filters))
               (aggregateByMonth dp movies genres)
        else aggregateByMonth dp movies genres))"
proof -
  obtain r h where s: "monthlySeries dp movies genres filters = (r, h)"
    by (cases "monthlySeries dp movies genres filters")
  have "monthly_data (transformDashboardData dp today movies genres filters) = records_of h r"
    by (simp add: transformDashboardData_def s Let_def)
  then show ?thesis
    using monthlySeries_value [OF s] by simp
qed

section \<open>C10\<close>

text \<open>
  C10. transformDashboardData applies the date-range filter to the monthly series only
  when both filters.startDate and filters.endDate are non-empty strings: then the series
  is built from the months whose key lies between the two bounds cut to seven
  characters. If either bound is empty, the monthly series is the one computed from all
  movies with valid dates, every month of the aggregation being present.
\<close>

theorem date_filter_needs_both_bounds:
  "(startDate filters = [] \<or> endDate filters = [] \<longrightarrow>
      monthly_data (transformDashboardData dp today movies genres filters)
        = withMovingAvg 3 (withChanges (aggregateByMonth dp movies genres))
      \<and> map month (monthly_data (transformDashboardData dp today movies genres filters))
        = map month (aggregateByMonth dp movies genres))
   \<and> (startDate filters \<noteq> [] \<and> endDate filters \<noteq> [] \<longrightarrow>
      monthly_data (transformDashboardData dp today movies genres filters)
        = withMovingAvg 3 (withChanges
            (filter (\<lambda>d. take 7 (startDate filters) \<le> month d
                          \<and> month d \<le> take 7 (endDate filters))
               (aggregateByMonth dp movies genres)))
      \<and> map month (monthly_data (transformDashboardData dp today movies genres filters))
        = filter (\<lambda>k. take 7 (startDate filters) \<le> k \<and> k \<le> take 7 (endDate filters))
            (map month (aggregateByMonth dp movies genres)))"
  by (auto simp add: monthly_data_value month_withMovingAvg month_withChanges filter_map comp_def)

lemma example_months_filtered:
  "filter (\<lambda>k. take 7 ''2023-02-01'' \<le> k \<and> k \<le> take 7 ''2023-12-31'')
     [''2023-01'', ''2023-03''] = [''2023-03'']"
  by simp

theorem date_filter_needs_both_bounds_witness:
  "map month (monthly_data (transformDashboardData iso_date ''2026-01-01''
       [example_movie 1 ''2023-03-15'' 40 7 200 [], example_movie 2 ''2023-01-15'' 10 6 300 [],
        example_movie 3 ''2023-03-09'' 20 8 100 [], example_movie 4 [] 5 5 100 []] []
       (example_filters ''2023-02-01'' []))) = [''2023-01'', ''2023-03'']
   \<and> map month (monthly_data (transformDashboardData iso_date ''2026-01-01''
       [example_movie 1 ''2023-03-15'' 40 7 200 [], example_movie 2 ''2023-01-15'' 10 6 300 [],
        example_movie 3 ''2023-03-09'' 20 8 100 [], example_movie 4 [] 5 5 100 []] []
       (example_filters ''2023-02-01'' ''2023-12-31''))) = [''2023-03'']"
proof -
  let ?ms = "[example_movie 1 ''2023-03-15'' 40 7 200 [], example_movie 2 ''2023-01-15'' 10 6 300 [],
        example_movie 3 ''2023-03-09'' 20 8 100 [], example_movie 4 [] 5 5 100 []]"
  let ?F1 = "example_filters ''2023-02-01'' []"
  let ?F2 = "example_filters ''2023-02-01'' ''2023-12-31''"
  have e1: "startDate ?F1 = [] \<or> endDate ?F1 = []"
    and e2: "startDate ?F2 \<noteq> [] \<and> endDate ?F2 \<noteq> []"
    and b2: "startDate ?F2 = ''2023-02-01''" "endDate ?F2 = ''2023-12-31''"
    by (simp_all add: example_filters_def)
  have "map month (monthly_data (transformDashboardData iso_date ''2026-01-01'' ?ms [] ?F1))
      = map month (aggregateByMonth iso_date ?ms [])"
    using date_filter_needs_both_bounds [of ?F1 iso_date "''2026-01-01''" ?ms "[]"] e1
    by blast
  then have one: "map month (monthly_data (transformDashboardData iso_date ''2026-01-01'' ?ms [] ?F1))
      = [''2023-01'', ''2023-03'']"
    by (simp only: example_months)
  have "map month (monthly_data (transformDashboardData iso_date ''2026-01-01'' ?ms [] ?F2))
      = filter (\<lambda>k. take 7 (startDate ?F2) \<le> k \<and> k \<le> take 7 (endDate ?F2))
          (map month (aggregateByMonth iso_date ?ms []))"
    using date_filter_needs_both_bounds [of ?F2 iso_date "''2026-01-01''" ?ms "[]"] e2
    by blast
  then have both: "map month (monthly_data (transformDashboardData iso_date ''2026-01-01'' ?ms [] ?F2))
      = [''2023-03'']"
    by (simp only: example_months b2 example_months_filtered)
  show ?thesis using one both by simp
qed

section \<open>The orchestrator: the other fields\<close>





lemma transformDashboardData_fields:
  "top_movies (transformDashboardData dp today movies genres filters)
     = getTopMovies movies genres ''popularity'' 10"
  "genre_distribution (transformDashboardData dp today movies genres filters)
     = analyzeGenreDistribution movies genres"
  "total_movies (transformDashboardData dp today movies genres filters) = length movies"
  "filters_applied (transformDashboardData dp today movies genres filters) = filters"
  "date_range (transformDashboardData dp today movies genres filters) =
     \<lparr> range_start = (if startDate filters \<noteq> [] then startDate filters
                       else getEarliestDate today movies),
       range_end = (if endDate filters \<noteq> [] then endDate filters
                     else getLatestDate today movies) \<rparr>"
  by (simp_all add: transformDashboardData_def Let_def split: prod.splits)


section \<open>C7\<close>





section \<open>C8\<close>

lemma genreCount_insert:
  "genreCount (xs @ m # ys) g = genreCount (xs @ ys) g + count_list (genre_ids m) g"
  by (simp add: genreCount_def)

lemma undated_not_aggregated:
  "release_date m = [] \<Longrightarrow>
     aggregateByMonth dp (xs @ m # ys) genres = aggregateByMonth dp (xs @ ys) genres"
  by (simp add: aggregateByMonth_def dateValid_def)

lemma undated_not_ranked:
  "release_date m = [] \<Longrightarrow>
     getTopMovies (xs @ m # ys) genres criteria topN = getTopMovies (xs @ ys) genres criteria topN"
  by (simp add: getTopMovies_def validTopMovie_def)

text \<open>
  C8 does not hold as stated: the ranker's own filter requires a non-empty release
  date, so a movie without one is never among the top movies, whatever its other
  fields. Alone in the input, with a poster, a title, popularity 50 and 500
  votes, it leaves the top movies empty, while it is counted in total_movies and in its
  genre.
\<close>

theorem undated_movie_counterexample:
  "top_movies (transformDashboardData iso_date ''2026-01-01''
       [example_movie 4 [] 50 8 500 [28]] [\<lparr>g_id = 28, g_name = ''Action''\<rparr>]
       (example_filters [] [])) = []
   \<and> monthly_data (transformDashboardData iso_date ''2026-01-01''
       [example_movie 4 [] 50 8 500 [28]] [\<lparr>g_id = 28, g_name = ''Action''\<rparr>]
       (example_filters [] [])) = []
   \<and> total_movies (transformDashboardData iso_date ''2026-01-01''
       [example_movie 4 [] 50 8 500 [28]] [\<lparr>g_id = 28, g_name = ''Action''\<rparr>]
       (example_filters [] [])) = 1
   \<and> map (\<lambda>r. (genre_id r, gd_count r, percentage r))
       (genre_distribution (transformDashboardData iso_date ''2026-01-01''
         [example_movie 4 [] 50 8 500 [28]] [\<lparr>g_id = 28, g_name = ''Action''\<rparr>]
         (example_filters [] []))) = [(28, 1, 100)]"
  by code_simp

text \<open>
  C8, amended. For every input containing a movie whose release_date is the empty
  string, that movie is excluded from the Monthly Aggregator's output and from the
  top movies (both are what they would be without it), yet it is still counted in the
  aggregate's total_movies and in the genre distribution, which runs on the original
  movie sequence: every record's count includes the movie's listings of that genre, the
  percentages divide by the full length, and every known genre of the movie has a record.
\<close>

theorem undated_movie:
  assumes "release_date m = []"
  shows "aggregateByMonth dp (xs @ m # ys) genres = aggregateByMonth dp (xs @ ys) genres
     \<and> monthly_data (transformDashboardData dp today (xs @ m # ys) genres filters)
         = monthly_data (transformDashboardData dp today (xs @ ys) genres filters)
     \<and> top_movies (transformDashboardData dp today (xs @ m # ys) genres filters)
         = top_movies (transformDashboardData dp today (xs @ ys) genres filters)
     \<and> total_movies (transformDashboardData dp today (xs @ m # ys) genres filters)
         = length xs + length ys + 1
     \<and> (\<forall>r \<in> set (genre_distribution
                      (transformDashboardData dp today (xs @ m # ys) genres filters)).
           gd_count r = genreCount (xs @ ys) (genre_id r) + count_list (genre_ids m) (genre_id r)
           \<and> percentage r
               = round2 (of_nat (gd_count r) / of_nat (length xs + length ys + 1) * 100))
     \<and> (\<forall>g \<in> set (genre_ids m). g \<in> g_id ` set genres \<longrightarrow>
           g \<in> genre_id ` set (genre_distribution
                      (transformDashboardData dp today (xs @ m # ys) genres filters)))"
proof -
  note agg = undated_not_aggregated [OF assms, of dp xs ys genres]
  have mon: "monthly_data (transformDashboardData dp today (xs @ m # ys) genres filters)
         = monthly_data (transformDashboardData dp today (xs @ ys) genres filters)"
    by (simp only: monthly_data_value agg)
  have top: "top_movies (transformDashboardData dp today (xs @ m # ys) genres filters)
         = top_movies (transformDashboardData dp today (xs @ ys) genres filters)"
    by (simp only: transformDashboardData_fields undated_not_ranked [OF assms])
  have tot: "total_movies (transformDashboardData dp today (xs @ m # ys) genres filters)
         = length xs + length ys + 1"
    by (simp add: transformDashboardData_fields)
  note rec = analyzeGenreDistribution_records [of "xs @ m # ys" genres]
  have len: "length (xs @ m # ys) = length xs + length ys + 1" by simp
  have cnt: "\<forall>r \<in> set (genre_distribution
                      (transformDashboardData dp today (xs @ m # ys) genres filters)).
           gd_count r = genreCount (xs @ ys) (genre_id r) + count_list (genre_ids m) (genre_id r)
           \<and> percentage r
               = round2 (of_nat (gd_count r) / of_nat (length xs + length ys + 1) * 100)"
    using rec unfolding transformDashboardData_fields genreCount_insert len by blast
  have "\<forall>g \<in> set (genre_ids m). g \<in> g_id ` set genres \<longrightarrow>
           g \<in> set (map genre_id (analyzeGenreDistribution (xs @ m # ys) genres))"
    using rec by auto
  then have own: "\<forall>g \<in> set (genre_ids m). g \<in> g_id ` set genres \<longrightarrow>
           g \<in> genre_id ` set (genre_distribution
                      (transformDashboardData dp today (xs @ m # ys) genres filters))"
    by (simp add: transformDashboardData_fields)
  show ?thesis using agg mon top tot cnt own by blast
qed

lemma example_undated_top:
  "map tm_id (top_movies (transformDashboardData iso_date ''2026-01-01''
       ([example_movie 1 ''2023-03-15'' 40 7 200 [28]] @ [])
       [\<lparr>g_id = 28, g_name = ''Action''\<rparr>] (example_filters [] []))) = [1]"
  by code_simp

theorem undated_movie_witness:
  "release_date (example_movie 4 [] 50 8 500 [28]) = []
   \<and> map tm_id (top_movies (transformDashboardData iso_date ''2026-01-01''
       ([example_movie 1 ''2023-03-15'' 40 7 200 [28]] @ example_movie 4 [] 50 8 500 [28] # [])
       [\<lparr>g_id = 28, g_name = ''Action''\<rparr>] (example_filters [] []))) = [1]
   \<and> total_movies (transformDashboardData iso_date ''2026-01-01''
       ([example_movie 1 ''2023-03-15'' 40 7 200 [28]] @ example_movie 4 [] 50 8 500 [28] # [])
       [\<lparr>g_id = 28, g_name = ''Action''\<rparr>] (example_filters [] [])) = 2"
proof -
  have h: "release_date (example_movie 4 [] 50 8 500 [28]) = []"
    by (simp add: example_movie_def)
  show ?thesis
    using h undated_movie [OF h, of iso_date "[example_movie 1 ''2023-03-15'' 40 7 200 [28]]" "[]"
        "[\<lparr>g_id = 28, g_name = ''Action''\<rparr>]" "''2026-01-01''" "example_filters [] []"]
      example_undated_top
    by simp
qed

end
